theory Spec2Isabelle
  imports Main
begin

section \<open>Status values and exceptions\<close>

text \<open>
  The engine reports every outcome as a \<open>Status\<close>: success, or a failure with a detail.
  A C++ exception leaving a function is the left summand of the function's result.
\<close>

datatype error_detail = UninitializedEngine | EngineFailure string

datatype Status = OK | Failure error_detail

datatype misuse = UnknownHandle | ReleasePending | AlreadyResolved

datatype exn = StatusError error_detail | MisuseError misuse

text \<open>
  Modelled from the spec: \<open>ThrowIfError\<close> is declared in adapter.h, which is not among the
  sources. It returns on a success status and raises the failure otherwise.
\<close>

definition ThrowIfError :: "Status \<Rightarrow> exn + unit" where
  "ThrowIfError st = (case st of OK \<Rightarrow> Inr () | Failure d \<Rightarrow> Inl (StatusError d))"


section \<open>The handle manager\<close>

text \<open>
  Modelled from the spec: \<open>HandleManager\<close> (handle_manager.h) is not among the sources.
  Section 4.1 of the specification gives its contract: \<open>allocate\<close> returns a fresh handle
  with pending status by monotonic allocation; \<open>resolve\<close> moves a pending handle to
  resolved and fails on an unknown or already resolved one; \<open>poll\<close> tells whether the
  handle is resolved and fails on an unknown handle; \<open>release\<close> requires a resolved
  handle, removes the entry and returns the stored outcome.
  An entry \<open>Some None\<close> is a pending handle, \<open>Some (Some st)\<close> a handle resolved with
  \<open>st\<close>, and \<open>None\<close> an id with no entry. Handle ids are unbounded integers here.
\<close>

record HandleManager =
  last_handle :: int
  results :: "int \<rightharpoonup> Status option"

definition AllocateHandle :: "HandleManager \<Rightarrow> int \<times> HandleManager" where
  "AllocateHandle hm =
     (let handle = last_handle hm + 1
      in (handle, hm\<lparr>last_handle := handle, results := (results hm)(handle \<mapsto> None)\<rparr>))"

definition MarkDone :: "HandleManager \<Rightarrow> int \<Rightarrow> Status \<Rightarrow> exn + HandleManager" where
  "MarkDone hm handle status =
     (case results hm handle of
        None \<Rightarrow> Inl (MisuseError UnknownHandle)
      | Some (Some _) \<Rightarrow> Inl (MisuseError AlreadyResolved)
      | Some None \<Rightarrow> Inr (hm\<lparr>results := (results hm)(handle \<mapsto> Some status)\<rparr>))"

definition PollHandle :: "HandleManager \<Rightarrow> int \<Rightarrow> exn + bool" where
  "PollHandle hm handle =
     (case results hm handle of
        None \<Rightarrow> Inl (MisuseError UnknownHandle)
      | Some None \<Rightarrow> Inr False
      | Some (Some _) \<Rightarrow> Inr True)"

definition ReleaseHandle :: "HandleManager \<Rightarrow> int \<Rightarrow> exn + Status \<times> HandleManager" where
  "ReleaseHandle hm handle =
     (case results hm handle of
        None \<Rightarrow> Inl (MisuseError UnknownHandle)
      | Some None \<Rightarrow> Inl (MisuseError ReleasePending)
      | Some (Some status) \<Rightarrow> Inr (status, hm\<lparr>results := (results hm)(handle := None)\<rparr>))"


section \<open>Tensor names\<close>

definition digit_chars :: string where
  "digit_chars = ''0123456789''"

fun nat_to_string :: "nat \<Rightarrow> string" where
  "nat_to_string n =
     (if n < 10 then [digit_chars ! n]
      else nat_to_string (n div 10) @ [digit_chars ! (n mod 10)])"

declare nat_to_string.simps [simp del]

text \<open>\<open>std::to_string\<close> on an \<open>int\<close>: decimal digits, with a minus sign when negative.\<close>

definition to_string :: "int \<Rightarrow> string" where
  "to_string i = (if i < 0 then ''-'' @ nat_to_string (nat (- i)) else nat_to_string (nat i))"

text \<open>
  \<open>name.c_str()\<close> handed to a \<open>const std::string&\<close> parameter builds a new string from
  the C string, which ends at the first NUL byte.
\<close>

definition c_str :: "string \<Rightarrow> string" where
  "c_str s = takeWhile (\<lambda>c. c \<noteq> CHR 0x00) s"

definition GetOpName :: "string \<Rightarrow> string \<Rightarrow> int \<Rightarrow> string" where
  "GetOpName prefix name handle =
     (if name \<noteq> [] then prefix @ ''.'' @ name
      else prefix @ ''.noname.'' @ to_string handle)"


section \<open>The stage plan\<close>

datatype QueueType =
  COORDINATE_REDUCE | REDUCE | COPYD2H | PUSH | PULL | COPYH2D
  | COORDINATE_BROADCAST | BROADCAST

definition push_back :: "'a list \<Rightarrow> 'a \<Rightarrow> 'a list" where
  "push_back q x = q @ [x]"

text \<open>Lines 78 to 94 of ops.cc: the list starts empty and grows by \<open>push_back\<close>.\<close>

definition build_queue_list :: "bool \<Rightarrow> bool \<Rightarrow> QueueType list" where
  "build_queue_list IsRoot IsDistributedJob =
     (let queue_list = [] in
      if IsRoot then
        (let queue_list = push_back queue_list REDUCE;
             queue_list =
               (if IsDistributedJob then
                  (let queue_list = push_back queue_list COPYD2H;
                       queue_list = push_back queue_list PUSH;
                       queue_list = push_back queue_list PULL;
                       queue_list = push_back queue_list COPYH2D
                   in queue_list)
                else queue_list);
             queue_list = push_back queue_list BROADCAST
         in queue_list)
      else
        (let queue_list = push_back queue_list COORDINATE_REDUCE;
             queue_list = push_back queue_list REDUCE;
             queue_list = push_back queue_list COORDINATE_BROADCAST;
             queue_list = push_back queue_list BROADCAST
         in queue_list))"


section \<open>Tensors\<close>

text \<open>
  A \<open>::torch::Tensor\<close> is a handle on a buffer: copying the handle (into the adapter, into
  a lambda capture) shares the buffer. The buffer is named by its data pointer, and the
  contents of all buffers are a store from pointers to element lists. The five exported
  tensor classes give the element types.
\<close>

datatype Device = CPU | CUDA nat

datatype DataType = IntTensor | LongTensor | HalfTensor | FloatTensor | DoubleTensor

record Tensor =
  tensor_device :: Device
  tensor_dtype :: DataType
  tensor_size :: nat
  tensor_data :: nat

type_synonym 'a store = "nat \<Rightarrow> 'a list"

definition nullptr :: nat where
  "nullptr = 0"

text \<open>
  \<open>Tensor::div_\<close> (here \<open>tensor_div\<close>) belongs to the tensor library: it divides every element of the buffer
  in place by a scalar. The division of one element is a parameter (truncating for the
  integer classes, floating point for the others).
\<close>

definition tensor_div :: "('a \<Rightarrow> int \<Rightarrow> 'a) \<Rightarrow> Tensor \<Rightarrow> int \<Rightarrow> 'a store \<Rightarrow> 'a store" where
  "tensor_div scalar_div t n mem = mem(tensor_data t := map (\<lambda>x. scalar_div x n) (mem (tensor_data t)))"

text \<open>The element division of the integer tensor classes: C division, truncating.\<close>

definition int_div :: "int \<Rightarrow> int \<Rightarrow> int" where
  "int_div a b = sgn a * sgn b * (\<bar>a\<bar> div \<bar>b\<bar>)"


section \<open>The engine\<close>

text \<open>
  The engine (byteps/common) is not among the sources. What it answers to each query of
  one \<open>DoPushPull\<close> call is a parameter: whether it is initialized, its registration
  table, whether the blocking registration raises, the role and topology flags, the worker
  count, and the status \<open>EnqueueTensor\<close> returns. The macro \<open>CPU_DEVICE_ID\<close> of the
  engine's headers is a parameter too.
\<close>

record Engine =
  initialized :: bool
  IsTensorInitialized :: "string \<Rightarrow> nat \<Rightarrow> bool"
  InitTensor_error :: "error_detail option"
  IsRoot :: bool
  IsDistributedJob :: bool
  byteps_size :: int
  EnqueueTensor_result :: Status
  CPU_DEVICE_ID :: int

text \<open>
  Modelled from the spec: \<open>CheckInitialized\<close> is not among the sources. The engine reports
  whether it is initialized; when it is not, the status is the uninitialized-engine error.
\<close>

definition CheckInitialized :: "Engine \<Rightarrow> Status" where
  "CheckInitialized eng = (if initialized eng then OK else Failure UninitializedEngine)"

datatype BPSContext = Context string

definition GetContextFromName :: "string \<Rightarrow> BPSContext" where
  "GetContextFromName name = Context name"

definition GetDeviceID :: "Engine \<Rightarrow> Tensor \<Rightarrow> int" where
  "GetDeviceID eng tensor =
     (case tensor_device tensor of
        CUDA index \<Rightarrow> int index
      | CPU \<Rightarrow> CPU_DEVICE_ID eng)"

datatype ready_event = AlreadyReady | StreamEvent int

text \<open>
  Modelled from the spec: \<open>RecordReadyEvent\<close> (ready_event.h) is not among the sources.
  For the host device the token is trivially ready; for an accelerator it captures the
  current position of that device's stream.
\<close>

definition RecordReadyEvent :: "Engine \<Rightarrow> int \<Rightarrow> ready_event" where
  "RecordReadyEvent eng device =
     (if device = CPU_DEVICE_ID eng then AlreadyReady else StreamEvent device)"


section \<open>Submissions and the completion callback\<close>

text \<open>The lambda of lines 99 to 105 captures \<open>handle\<close>, \<open>average\<close> and \<open>tensor\<close> by value.\<close>

record callback =
  cb_handle :: int
  cb_average :: int
  cb_tensor :: Tensor

record submission =
  sub_context :: BPSContext
  sub_input :: Tensor
  sub_output :: Tensor
  sub_ready_event :: ready_event
  sub_name :: string
  sub_device :: int
  sub_priority :: int
  sub_version :: int
  sub_callback :: callback
  sub_queue_list :: "QueueType list"

text \<open>The calls \<open>DoPushPull\<close> makes to its collaborators, in program order.\<close>

datatype call =
    Call_CheckInitialized
  | Call_AllocateHandle int
  | Call_RecordReadyEvent int
  | Call_IsTensorInitialized string nat
  | Call_GetContextFromName string
  | Call_InitTensor BPSContext string DataType nat
  | Call_IsRoot
  | Call_IsDistributedJob
  | Call_EnqueueTensor submission

text \<open>
  The body of the callback: with \<open>average\<close> non-zero it divides the captured tensor in place
  by the worker count, then it marks the handle done with the status the engine passes.
\<close>

definition run_callback ::
  "('a \<Rightarrow> int \<Rightarrow> 'a) \<Rightarrow> Engine \<Rightarrow> callback \<Rightarrow> Status \<Rightarrow> HandleManager \<Rightarrow> 'a store
     \<Rightarrow> (exn + unit) \<times> HandleManager \<times> 'a store" where
  "run_callback scalar_div eng cb status handle_manager mem =
     (let mem = (if cb_average cb \<noteq> 0
                 then tensor_div scalar_div (cb_tensor cb) (byteps_size eng) mem
                 else mem)
      in case MarkDone handle_manager (cb_handle cb) status of
           Inl e \<Rightarrow> (Inl e, handle_manager, mem)
         | Inr handle_manager \<Rightarrow> (Inr (), handle_manager, mem))"


section \<open>DoPushPull\<close>

text \<open>
  Lines 68 to 74: the registration, when the engine does not know the name yet. The result
  is the exception the blocking registration raised, if any, and the calls made.
\<close>

definition init_if_needed ::
  "Engine \<Rightarrow> string \<Rightarrow> nat \<Rightarrow> DataType \<Rightarrow> int \<Rightarrow> Tensor \<Rightarrow> exn option \<times> call list" where
  "init_if_needed eng tensor_name size_bytes dtype device byteps_input =
     (if \<not> IsTensorInitialized eng tensor_name size_bytes then
        (let context = GetContextFromName tensor_name;
             cpubuff = (if device = CPU_DEVICE_ID eng then tensor_data byteps_input else nullptr);
             calls = [Call_IsTensorInitialized tensor_name size_bytes,
                      Call_GetContextFromName tensor_name,
                      Call_InitTensor context tensor_name dtype cpubuff]
         in case InitTensor_error eng of
              Some d \<Rightarrow> (Some (StatusError d), calls)
            | None \<Rightarrow> (None, calls))
      else (None, [Call_IsTensorInitialized tensor_name size_bytes]))"

text \<open>
  The result is the handle or the exception raised, the handle manager after the call, and
  the calls made. The tensor name is built with the literal handle \<open>0\<close>, as line 63 does.
\<close>

definition DoPushPull ::
  "Engine \<Rightarrow> Tensor \<Rightarrow> Tensor \<Rightarrow> int \<Rightarrow> string \<Rightarrow> int \<Rightarrow> int \<Rightarrow> HandleManager
     \<Rightarrow> (exn + int) \<times> HandleManager \<times> call list" where
  "DoPushPull eng tensor output average name version priority handle_manager =
     (case ThrowIfError (CheckInitialized eng) of
        Inl e \<Rightarrow> (Inl e, handle_manager, [Call_CheckInitialized])
      | Inr _ \<Rightarrow>
          (let (handle, handle_manager) = AllocateHandle handle_manager;
               device = GetDeviceID eng tensor;
               ready_event = RecordReadyEvent eng device;
               byteps_input = tensor;
               byteps_output = output;
               tensor_name = GetOpName ''byteps'' (c_str name) 0;
               size_bytes = tensor_size byteps_input;
               dtype = tensor_dtype byteps_input;
               calls = [Call_CheckInitialized, Call_AllocateHandle handle,
                        Call_RecordReadyEvent device];
               (raised, init_calls) =
                 init_if_needed eng tensor_name size_bytes dtype device byteps_input;
               calls = calls @ init_calls
           in case raised of
                Some e \<Rightarrow> (Inl e, handle_manager, calls)
              | None \<Rightarrow>
                  (let context = GetContextFromName tensor_name;
                       queue_list = build_queue_list (IsRoot eng) (IsDistributedJob eng);
                       role_calls = (if IsRoot eng then [Call_IsRoot, Call_IsDistributedJob]
                                     else [Call_IsRoot]);
                       sub = \<lparr>sub_context = context, sub_input = byteps_input,
                              sub_output = byteps_output, sub_ready_event = ready_event,
                              sub_name = tensor_name, sub_device = device,
                              sub_priority = priority, sub_version = version,
                              sub_callback = \<lparr>cb_handle = handle, cb_average = average,
                                               cb_tensor = tensor\<rparr>,
                              sub_queue_list = queue_list\<rparr>;
                       calls = calls @ [Call_GetContextFromName tensor_name] @ role_calls
                                 @ [Call_EnqueueTensor sub];
                       enqueue_result = EnqueueTensor_result eng
                   in case ThrowIfError enqueue_result of
                        Inl e \<Rightarrow> (Inl e, handle_manager, calls)
                      | Inr _ \<Rightarrow> (Inr handle, handle_manager, calls))))"


section \<open>PollHandle and WaitAndClear\<close>

text \<open>
  The handle manager is shared with the engine's threads and with other callers. Its
  operations are atomic, so what the other threads do between two calls of the waiting
  thread is a list of operations; their exceptions go to those threads and leave the
  registry as it was.
\<close>

datatype registry_op =
    Op_AllocateHandle
  | Op_MarkDone int Status
  | Op_PollHandle int
  | Op_ReleaseHandle int

fun run_op :: "registry_op \<Rightarrow> HandleManager \<Rightarrow> HandleManager" where
  "run_op Op_AllocateHandle hm = snd (AllocateHandle hm)"
| "run_op (Op_MarkDone h st) hm = (case MarkDone hm h st of Inl _ \<Rightarrow> hm | Inr hm' \<Rightarrow> hm')"
| "run_op (Op_PollHandle h) hm = hm"
| "run_op (Op_ReleaseHandle h) hm = (case ReleaseHandle hm h of Inl _ \<Rightarrow> hm | Inr (_, hm') \<Rightarrow> hm')"

definition run_ops :: "registry_op list \<Rightarrow> HandleManager \<Rightarrow> HandleManager" where
  "run_ops ops hm = fold run_op ops hm"

text \<open>The handle manager is a static object: it starts with no entry.\<close>

definition initial_handle_manager :: HandleManager where
  "initial_handle_manager = \<lparr>last_handle = 0, results = Map.empty\<rparr>"

text \<open>The exported \<open>PollHandle\<close> of line 112.\<close>

definition PollHandle_export :: "HandleManager \<Rightarrow> int \<Rightarrow> exn + int" where
  "PollHandle_export hm handle =
     (case PollHandle hm handle of Inl e \<Rightarrow> Inl e | Inr b \<Rightarrow> Inr (if b then 1 else 0))"

text \<open>What the waiting thread does, in program order; the sleep is in milliseconds.\<close>

datatype wait_event =
    Ev_PollHandle int "exn + bool"
  | Ev_sleep_for nat
  | Ev_ReleaseHandle int "exn + Status"

datatype loop_result = Exited | Threw exn | Forever

text \<open>
  The loop of lines 115 to 117. The schedule gives, for each sleep, the operations of the
  other threads that take effect during it. When the schedule is used up nobody touches the
  registry any more, and a handle that is still pending then makes the loop poll forever:
  that is the result \<open>Forever\<close>, with the events up to there.
  The result also gives the registry and the rest of the schedule at the exit.
\<close>

fun poll_loop ::
  "int \<Rightarrow> registry_op list list \<Rightarrow> HandleManager
     \<Rightarrow> wait_event list \<times> loop_result \<times> HandleManager \<times> registry_op list list" where
  "poll_loop handle sched hm =
     (case PollHandle hm handle of
        Inl e \<Rightarrow> ([Ev_PollHandle handle (Inl e)], Threw e, hm, sched)
      | Inr True \<Rightarrow> ([Ev_PollHandle handle (Inr True)], Exited, hm, sched)
      | Inr False \<Rightarrow>
          (case sched of
             [] \<Rightarrow> ([Ev_PollHandle handle (Inr False), Ev_sleep_for 1], Forever, hm, [])
           | ops # rest \<Rightarrow>
               (case poll_loop handle rest (run_ops ops hm) of
                  (evs, r, hm', sched') \<Rightarrow>
                    (Ev_PollHandle handle (Inr False) # Ev_sleep_for 1 # evs, r, hm', sched'))))"

declare poll_loop.simps [simp del]

datatype wait_result = Returned | Raised exn | Spins

text \<open>
  Lines 114 to 120. No lock is held between the last poll and the release, so the next
  operations of the other threads take effect in between.
\<close>

definition WaitAndClear ::
  "int \<Rightarrow> registry_op list list \<Rightarrow> HandleManager
     \<Rightarrow> wait_event list \<times> wait_result \<times> HandleManager" where
  "WaitAndClear handle sched hm =
     (case poll_loop handle sched hm of
        (evs, Threw e, hm1, _) \<Rightarrow> (evs, Raised e, hm1)
      | (evs, Forever, hm1, _) \<Rightarrow> (evs, Spins, hm1)
      | (evs, Exited, hm1, sched1) \<Rightarrow>
          (let hm2 = (case sched1 of [] \<Rightarrow> hm1 | ops # _ \<Rightarrow> run_ops ops hm1)
           in case ReleaseHandle hm2 handle of
                Inl e \<Rightarrow> (evs @ [Ev_ReleaseHandle handle (Inl e)], Raised e, hm2)
              | Inr (status, hm3) \<Rightarrow>
                  (evs @ [Ev_ReleaseHandle handle (Inr status)],
                   (case ThrowIfError status of Inl e \<Rightarrow> Raised e | Inr _ \<Rightarrow> Returned),
                   hm3)))"

section \<open>Notions used in the statements\<close>

text \<open>The submissions among the calls of a trace, and the two kinds of call that matter.\<close>

fun enqueued :: "call list \<Rightarrow> submission list" where
  "enqueued [] = []"
| "enqueued (Call_EnqueueTensor sub # cs) = sub # enqueued cs"
| "enqueued (_ # cs) = enqueued cs"

fun is_InitTensor :: "call \<Rightarrow> bool" where
  "is_InitTensor (Call_InitTensor _ _ _ _) = True"
| "is_InitTensor _ = False"

fun is_EnqueueTensor :: "call \<Rightarrow> bool" where
  "is_EnqueueTensor (Call_EnqueueTensor _) = True"
| "is_EnqueueTensor _ = False"

fun is_ReleaseHandle :: "wait_event \<Rightarrow> bool" where
  "is_ReleaseHandle (Ev_ReleaseHandle _ _) = True"
| "is_ReleaseHandle _ = False"

text \<open>The calls of lines 68 to 74, and the submission of lines 96 to 105, in closed form.\<close>

definition registration_calls :: "Engine \<Rightarrow> Tensor \<Rightarrow> string \<Rightarrow> call list" where
  "registration_calls eng tensor tn =
     (if IsTensorInitialized eng tn (tensor_size tensor)
      then [Call_IsTensorInitialized tn (tensor_size tensor)]
      else [Call_IsTensorInitialized tn (tensor_size tensor),
            Call_GetContextFromName tn,
            Call_InitTensor (Context tn) tn (tensor_dtype tensor)
              (if GetDeviceID eng tensor = CPU_DEVICE_ID eng then tensor_data tensor
               else nullptr)])"

definition the_submission ::
  "Engine \<Rightarrow> Tensor \<Rightarrow> Tensor \<Rightarrow> int \<Rightarrow> string \<Rightarrow> int \<Rightarrow> int \<Rightarrow> int \<Rightarrow> submission" where
  "the_submission eng tensor output average name version priority handle =
     \<lparr>sub_context = Context (GetOpName ''byteps'' (c_str name) 0), sub_input = tensor,
      sub_output = output,
      sub_ready_event = RecordReadyEvent eng (GetDeviceID eng tensor),
      sub_name = GetOpName ''byteps'' (c_str name) 0, sub_device = GetDeviceID eng tensor,
      sub_priority = priority, sub_version = version,
      sub_callback = \<lparr>cb_handle = handle, cb_average = average, cb_tensor = tensor\<rparr>,
      sub_queue_list = build_queue_list (IsRoot eng) (IsDistributedJob eng)\<rparr>"

text \<open>The registry once the operations of the first \<open>k\<close> sleeps have taken effect.\<close>

definition registry_after ::
  "nat \<Rightarrow> registry_op list list \<Rightarrow> HandleManager \<Rightarrow> HandleManager" where
  "registry_after k sched hm = fold run_ops (take k sched) hm"

text \<open>
  Every entry of the registry was allocated: its id is at most the last id handed out.
  A handle is settled when it has been allocated and is not pending.
\<close>

definition wf_registry :: "HandleManager \<Rightarrow> bool" where
  "wf_registry hm = (\<forall>i. results hm i \<noteq> None \<longrightarrow> i \<le> last_handle hm)"

definition settled :: "HandleManager \<Rightarrow> int \<Rightarrow> bool" where
  "settled hm h = (wf_registry hm \<and> h \<le> last_handle hm \<and> results hm h \<noteq> Some None)"


section \<open>Concrete inputs\<close>

text \<open>
  A root worker of a single-node job of four workers that knows no tensor yet; two host
  tensors on different buffers and an accelerator tensor; a store in which the engine has
  left the sum in the output buffer.
\<close>

definition example_engine :: Engine where
  "example_engine =
     \<lparr>initialized = True, IsTensorInitialized = (\<lambda>name size_bytes. False),
      InitTensor_error = None, IsRoot = True, IsDistributedJob = False, byteps_size = 4,
      EnqueueTensor_result = OK, CPU_DEVICE_ID = - 1\<rparr>"

definition rejecting_engine :: Engine where
  "rejecting_engine =
     example_engine\<lparr>EnqueueTensor_result := Failure (EngineFailure ''rejected'')\<rparr>"

definition uninitialized_engine :: Engine where
  "uninitialized_engine = example_engine\<lparr>initialized := False\<rparr>"

definition example_input :: Tensor where
  "example_input =
     \<lparr>tensor_device = CPU, tensor_dtype = IntTensor, tensor_size = 8, tensor_data = 100\<rparr>"

definition example_output :: Tensor where
  "example_output =
     \<lparr>tensor_device = CPU, tensor_dtype = IntTensor, tensor_size = 8, tensor_data = 200\<rparr>"

definition example_cuda_input :: Tensor where
  "example_cuda_input =
     \<lparr>tensor_device = CUDA 0, tensor_dtype = FloatTensor, tensor_size = 8, tensor_data = 300\<rparr>"

definition example_store :: "int store" where
  "example_store = (\<lambda>p. [])(100 := [2, 3], 200 := [8, 12])"

definition example_submission :: submission where
  "example_submission =
     \<lparr>sub_context = Context ''byteps.noname.0'', sub_input = example_input,
      sub_output = example_output, sub_ready_event = AlreadyReady,
      sub_name = ''byteps.noname.0'', sub_device = - 1, sub_priority = 0, sub_version = 0,
      sub_callback = \<lparr>cb_handle = 7, cb_average = 1, cb_tensor = example_input\<rparr>,
      sub_queue_list = [REDUCE, BROADCAST]\<rparr>"

definition example_calls :: "call list" where
  "example_calls =
     [Call_CheckInitialized, Call_AllocateHandle 7, Call_RecordReadyEvent (- 1),
      Call_IsTensorInitialized ''byteps.noname.0'' 8,
      Call_GetContextFromName ''byteps.noname.0'',
      Call_InitTensor (Context ''byteps.noname.0'') ''byteps.noname.0'' IntTensor 100,
      Call_GetContextFromName ''byteps.noname.0'', Call_IsRoot, Call_IsDistributedJob,
      Call_EnqueueTensor example_submission]"

text \<open>
  A registry with handle 1 pending, and a schedule: nothing happens during the first sleep,
  the engine marks handle 1 done with a network failure during the second, and another
  caller allocates a handle after that.
\<close>

definition example_registry :: HandleManager where
  "example_registry = run_ops [Op_AllocateHandle] initial_handle_manager"

definition example_schedule :: "registry_op list list" where
  "example_schedule =
     [[], [Op_MarkDone 1 (Failure (EngineFailure ''network''))], [Op_AllocateHandle]]"

section \<open>Facts about the model\<close>

lemmas example_defs =
  example_engine_def rejecting_engine_def uninitialized_engine_def example_input_def
  example_output_def example_cuda_input_def example_submission_def example_calls_def
  initial_handle_manager_def

lemma to_string_0: "to_string 0 = ''0''"
  by (simp add: to_string_def nat_to_string.simps digit_chars_def)

lemma to_string_7: "to_string 7 = ''7''"
  by (simp add: to_string_def nat_to_string.simps digit_chars_def)

lemma build_queue_list_cases:
  "build_queue_list True False = [REDUCE, BROADCAST]"
  "build_queue_list True True = [REDUCE, COPYD2H, PUSH, PULL, COPYH2D, BROADCAST]"
  "build_queue_list False d = [COORDINATE_REDUCE, REDUCE, COORDINATE_BROADCAST, BROADCAST]"
  by (simp_all add: build_queue_list_def push_back_def)

lemma DoPushPull_uninitialized:
  "\<not> initialized eng \<Longrightarrow>
   DoPushPull eng tensor output average name version priority hm =
     (Inl (StatusError UninitializedEngine), hm, [Call_CheckInitialized])"
  by (simp add: DoPushPull_def CheckInitialized_def ThrowIfError_def)

lemma init_if_needed_calls:
  "snd (init_if_needed eng tn (tensor_size tensor) (tensor_dtype tensor)
          (GetDeviceID eng tensor) tensor)
     = registration_calls eng tensor tn"
  by (simp add: init_if_needed_def registration_calls_def GetContextFromName_def Let_def
           split: option.splits)

lemma init_if_needed_raised:
  "fst (init_if_needed eng tn sz dt dev tensor) =
     (if IsTensorInitialized eng tn sz then None
      else map_option StatusError (InitTensor_error eng))"
  by (simp add: init_if_needed_def Let_def split: option.splits)

text \<open>What a call that passes the initialization check returns, and the calls it makes.\<close>

lemma DoPushPull_initialized:
  assumes "initialized eng"
  shows "DoPushPull eng tensor output average name version priority hm =
     (let tn = GetOpName ''byteps'' (c_str name) 0;
          handle = last_handle hm + 1;
          hm' = snd (AllocateHandle hm);
          calls = [Call_CheckInitialized, Call_AllocateHandle handle,
                   Call_RecordReadyEvent (GetDeviceID eng tensor)]
                  @ registration_calls eng tensor tn
      in case fst (init_if_needed eng tn (tensor_size tensor) (tensor_dtype tensor)
                     (GetDeviceID eng tensor) tensor) of
           Some e \<Rightarrow> (Inl e, hm', calls)
         | None \<Rightarrow>
             (let calls = calls @ [Call_GetContextFromName tn]
                    @ (if IsRoot eng then [Call_IsRoot, Call_IsDistributedJob]
                       else [Call_IsRoot])
                    @ [Call_EnqueueTensor
                         (the_submission eng tensor output average name version priority
                            handle)]
              in case EnqueueTensor_result eng of
                   OK \<Rightarrow> (Inr handle, hm', calls)
                 | Failure d \<Rightarrow> (Inl (StatusError d), hm', calls)))"
  using assms
  unfolding DoPushPull_def CheckInitialized_def
  by (simp add: ThrowIfError_def AllocateHandle_def Let_def the_submission_def
        GetContextFromName_def init_if_needed_calls [symmetric]
        split: prod.splits option.splits Status.splits)

lemma example_call:
  "DoPushPull example_engine example_input example_output 1 '''' 0 0
     (initial_handle_manager\<lparr>last_handle := 6\<rparr>) =
   (Inr 7, \<lparr>last_handle = 7, results = Map.empty(7 \<mapsto> None)\<rparr>, example_calls)"
  by (simp add: DoPushPull_def CheckInitialized_def ThrowIfError_def AllocateHandle_def
        GetDeviceID_def RecordReadyEvent_def GetOpName_def c_str_def to_string_0
        init_if_needed_def GetContextFromName_def build_queue_list_cases example_defs Let_def)

lemma example_cuda_call:
  "snd (snd (DoPushPull example_engine example_cuda_input example_cuda_input 0 ''grad1'' 0 0
               initial_handle_manager)) ! 5 =
     Call_InitTensor (Context ''byteps.grad1'') ''byteps.grad1'' FloatTensor nullptr"
  by (simp add: DoPushPull_def CheckInitialized_def ThrowIfError_def AllocateHandle_def
        GetDeviceID_def RecordReadyEvent_def GetOpName_def c_str_def
        init_if_needed_def GetContextFromName_def build_queue_list_cases example_defs Let_def)

text \<open>
  The callback touches one buffer only, the one of the tensor it captured, and
  \<open>DoPushPull\<close> lets it capture the input tensor.
\<close>

lemma run_callback_other_buffers:
  assumes "run_callback scalar_div eng cb status hm mem = (r, hm', mem')"
      and "p \<noteq> tensor_data (cb_tensor cb)"
  shows "mem' p = mem p"
  using assms
  by (auto simp: run_callback_def tensor_div_def Let_def split: sum.splits if_splits)

lemma run_callback_captured_buffer:
  assumes "run_callback scalar_div eng cb status hm mem = (r, hm', mem')"
      and "cb_average cb \<noteq> 0"
  shows "mem' (tensor_data (cb_tensor cb)) =
           map (\<lambda>x. scalar_div x (byteps_size eng)) (mem (tensor_data (cb_tensor cb)))"
  using assms
  by (auto simp: run_callback_def tensor_div_def Let_def split: sum.splits)

lemma run_callback_marks_done:
  assumes "run_callback scalar_div eng cb status hm mem = (r, hm', mem')"
      and "results hm (cb_handle cb) = Some None"
  shows "r = Inr () \<and> results hm' (cb_handle cb) = Some (Some status)"
  using assms
  by (auto simp: run_callback_def MarkDone_def Let_def split: sum.splits option.splits)

text \<open>
  The identity of a call depends on the label only: a label that is not empty (up to its
  first NUL byte) gives the prefix, a dot and the label.
\<close>

lemma c_str_no_NUL: "CHR 0x00 \<notin> set name \<Longrightarrow> c_str name = name"
  by (auto simp: c_str_def)

lemma GetOpName_label:
  "name \<noteq> [] \<Longrightarrow> GetOpName prefix name handle = prefix @ ''.'' @ name"
  by (simp add: GetOpName_def)

lemma DoPushPull_submits:
  assumes "DoPushPull eng tensor output average name version priority hm = (r, hm', calls)"
      and "Call_EnqueueTensor sub \<in> set calls"
  shows "sub = the_submission eng tensor output average name version priority
                 (last_handle hm + 1)"
proof (cases "initialized eng")
  case False
  with assms show ?thesis by (auto simp: DoPushPull_uninitialized)
next
  case True
  from assms show ?thesis
    unfolding DoPushPull_initialized [OF True]
    by (auto simp: Let_def registration_calls_def
          split: option.splits Status.splits if_splits)
qed

text \<open>
  A submission the engine rejects: the failure is raised, and the handle allocated for the
  call is left pending.
\<close>

lemma DoPushPull_rejected:
  assumes "initialized eng"
      and "fst (init_if_needed eng (GetOpName ''byteps'' (c_str name) 0) (tensor_size tensor)
                  (tensor_dtype tensor) (GetDeviceID eng tensor) tensor) = None"
      and "EnqueueTensor_result eng = Failure d"
      and "DoPushPull eng tensor output average name version priority hm = (r, hm', calls)"
  shows "r = Inl (StatusError d) \<and> results hm' (last_handle hm + 1) = Some None"
  using assms(2-4)
  unfolding DoPushPull_initialized [OF assms(1)]
  by (auto simp: Let_def AllocateHandle_def)


section \<open>The stage plan\<close>

text \<open>
  Claim C4. The stage plan is a total function of the two booleans: a root worker of a
  non-distributed job gets local-reduce, local-broadcast; a root worker of a distributed
  job gets local-reduce, device-to-host copy, push, pull, host-to-device copy,
  local-broadcast; a non-root worker gets coordinate-reduce, local-reduce,
  coordinate-broadcast, local-broadcast whatever the topology. Every submission a
  \<open>DoPushPull\<close> call hands to the engine carries the plan of the engine's two flags.
\<close>

theorem stage_plan_table:
  assumes "DoPushPull eng tensor output average name version priority hm = (r, hm', calls)"
  shows "build_queue_list True False = [REDUCE, BROADCAST]
       \<and> build_queue_list True True = [REDUCE, COPYD2H, PUSH, PULL, COPYH2D, BROADCAST]
       \<and> build_queue_list False d =
           [COORDINATE_REDUCE, REDUCE, COORDINATE_BROADCAST, BROADCAST]
       \<and> (\<forall>sub. Call_EnqueueTensor sub \<in> set calls \<longrightarrow>
            sub_queue_list sub = build_queue_list (IsRoot eng) (IsDistributedJob eng))"
proof -
  have "sub_queue_list sub = build_queue_list (IsRoot eng) (IsDistributedJob eng)"
    if "Call_EnqueueTensor sub \<in> set calls" for sub
  proof (cases "initialized eng")
    case False
    with assms that show ?thesis by (auto simp: DoPushPull_uninitialized)
  next
    case True
    from assms that show ?thesis
      unfolding DoPushPull_initialized [OF True]
      by (auto simp: Let_def the_submission_def registration_calls_def
            split: option.splits Status.splits if_splits)
  qed
  then show ?thesis by (simp add: build_queue_list_cases)
qed

theorem stage_plan_table_witness:
  "DoPushPull example_engine example_input example_output 1 '''' 0 0
     (initial_handle_manager\<lparr>last_handle := 6\<rparr>) =
     (Inr 7, \<lparr>last_handle = 7, results = Map.empty(7 \<mapsto> None)\<rparr>, example_calls)
   \<and> Call_EnqueueTensor example_submission \<in> set example_calls
   \<and> IsRoot example_engine \<and> \<not> IsDistributedJob example_engine
   \<and> sub_queue_list example_submission = build_queue_list True False
   \<and> build_queue_list True False = [REDUCE, BROADCAST]"
proof -
  have sub: "Call_EnqueueTensor example_submission \<in> set example_calls"
    by (simp add: example_calls_def)
  have flags: "IsRoot example_engine \<and> \<not> IsDistributedJob example_engine"
    by (simp add: example_engine_def)
  from stage_plan_table [OF example_call, of False] sub flags
  have "sub_queue_list example_submission = build_queue_list True False
        \<and> build_queue_list True False = [REDUCE, BROADCAST]"
    by auto
  with example_call sub flags show ?thesis by simp
qed

text \<open>The shape of the plan, for every combination of the two booleans.\<close>

lemma build_queue_list_shape:
  "count_list (build_queue_list r d) REDUCE = 1
   \<and> count_list (build_queue_list r d) BROADCAST = 1
   \<and> REDUCE \<in> set (takeWhile (\<lambda>s. s \<noteq> BROADCAST) (build_queue_list r d))
   \<and> last (build_queue_list r d) = BROADCAST"
  by (cases r; cases d) (simp_all add: build_queue_list_cases)

text \<open>
  Claim C8. Whatever the two booleans, the stage plan \<open>DoPushPull\<close> builds holds exactly
  one local-reduce stage and exactly one local-broadcast stage, the local-reduce comes
  before the local-broadcast, and the local-broadcast is the last stage. This holds of the
  plan of every submission a \<open>DoPushPull\<close> call hands to the engine, which is the plan
  of the engine's two flags, and of the plan of any two booleans \<open>r\<close> and \<open>d\<close>.
\<close>

theorem stage_plan_reduce_then_broadcast:
  assumes "DoPushPull eng tensor output average name version priority hm = (r', hm', calls)"
      and "Call_EnqueueTensor sub \<in> set calls"
  shows "sub_queue_list sub = build_queue_list (IsRoot eng) (IsDistributedJob eng)
       \<and> count_list (sub_queue_list sub) REDUCE = 1
       \<and> count_list (sub_queue_list sub) BROADCAST = 1
       \<and> REDUCE \<in> set (takeWhile (\<lambda>s. s \<noteq> BROADCAST) (sub_queue_list sub))
       \<and> last (sub_queue_list sub) = BROADCAST
       \<and> count_list (build_queue_list r d) REDUCE = 1
       \<and> count_list (build_queue_list r d) BROADCAST = 1
       \<and> REDUCE \<in> set (takeWhile (\<lambda>s. s \<noteq> BROADCAST) (build_queue_list r d))
       \<and> last (build_queue_list r d) = BROADCAST"
proof -
  from DoPushPull_submits [OF assms]
  have plan: "sub_queue_list sub = build_queue_list (IsRoot eng) (IsDistributedJob eng)"
    by (simp add: the_submission_def)
  show ?thesis
    unfolding plan
    using build_queue_list_shape [of "IsRoot eng" "IsDistributedJob eng"]
      build_queue_list_shape [of r d]
    by simp
qed

theorem stage_plan_reduce_then_broadcast_witness:
  "DoPushPull example_engine example_input example_output 1 '''' 0 0
     (initial_handle_manager\<lparr>last_handle := 6\<rparr>) =
     (Inr 7, \<lparr>last_handle = 7, results = Map.empty(7 \<mapsto> None)\<rparr>, example_calls)
   \<and> Call_EnqueueTensor example_submission \<in> set example_calls
   \<and> sub_queue_list example_submission = [REDUCE, BROADCAST]
   \<and> count_list (sub_queue_list example_submission) REDUCE = 1
   \<and> count_list (sub_queue_list example_submission) BROADCAST = 1
   \<and> REDUCE \<in> set (takeWhile (\<lambda>s. s \<noteq> BROADCAST) (sub_queue_list example_submission))
   \<and> last (sub_queue_list example_submission) = BROADCAST"
proof -
  have sub: "Call_EnqueueTensor example_submission \<in> set example_calls"
    by (simp add: example_calls_def)
  have plan: "sub_queue_list example_submission = [REDUCE, BROADCAST]"
    by (simp add: example_submission_def)
  from stage_plan_reduce_then_broadcast [OF example_call sub, of True False]
  have "count_list (sub_queue_list example_submission) REDUCE = 1
   \<and> count_list (sub_queue_list example_submission) BROADCAST = 1
   \<and> REDUCE \<in> set (takeWhile (\<lambda>s. s \<noteq> BROADCAST) (sub_queue_list example_submission))
   \<and> last (sub_queue_list example_submission) = BROADCAST"
    by blast
  with example_call sub plan show ?thesis by simp
qed

section \<open>Submission\<close>

text \<open>
  Claim C5. When the engine reports itself uninitialized, \<open>DoPushPull\<close> raises the
  uninitialized-engine error, the handle registry is what it was, and the only call made
  is the initialization check: no handle was allocated.
\<close>

theorem uninitialized_engine_fails_before_allocation:
  assumes "\<not> initialized eng"
  shows "DoPushPull eng tensor output average name version priority hm =
           (Inl (StatusError UninitializedEngine), hm, [Call_CheckInitialized])"
  using assms by (rule DoPushPull_uninitialized)

theorem uninitialized_engine_fails_before_allocation_witness:
  "\<not> initialized uninitialized_engine
   \<and> DoPushPull uninitialized_engine example_input example_output 1 ''grad1'' 0 0
         initial_handle_manager =
       (Inl (StatusError UninitializedEngine), initial_handle_manager, [Call_CheckInitialized])"
proof -
  have h: "\<not> initialized uninitialized_engine"
    by (simp add: example_defs)
  show ?thesis
    using h uninitialized_engine_fails_before_allocation [OF h] by simp
qed

text \<open>
  Claim C7. In a call that passes the initialization check, the blocking registration
  \<open>InitTensor\<close> is called if and only if the engine does not know the identity yet; the
  registration and the submission are both for the identity of this call; and when the
  registration is called, no submission precedes it in the order of the calls, so the
  registration has returned before \<open>EnqueueTensor\<close> is called.
\<close>

theorem registration_before_submission:
  assumes "initialized eng"
      and "DoPushPull eng tensor output average name version priority hm = (r, hm', calls)"
      and "tn = GetOpName ''byteps'' (c_str name) 0"
  shows "(list_ex is_InitTensor calls \<longleftrightarrow> \<not> IsTensorInitialized eng tn (tensor_size tensor))
       \<and> (\<forall>ctx n dt p. Call_InitTensor ctx n dt p \<in> set calls \<longrightarrow> n = tn)
       \<and> (\<forall>sub. Call_EnqueueTensor sub \<in> set calls \<longrightarrow> sub_name sub = tn)
       \<and> (\<not> IsTensorInitialized eng tn (tensor_size tensor) \<longrightarrow>
            list_all (\<lambda>c. \<not> is_EnqueueTensor c) (takeWhile (\<lambda>c. \<not> is_InitTensor c) calls))"
  using assms(2)
  unfolding DoPushPull_initialized [OF assms(1)] assms(3)
  by (auto simp: Let_def the_submission_def registration_calls_def
        split: option.splits Status.splits if_splits)

theorem registration_before_submission_witness:
  "initialized example_engine
   \<and> DoPushPull example_engine example_input example_output 1 '''' 0 0
       (initial_handle_manager\<lparr>last_handle := 6\<rparr>) =
       (Inr 7, \<lparr>last_handle = 7, results = Map.empty(7 \<mapsto> None)\<rparr>, example_calls)
   \<and> ''byteps.noname.0'' = GetOpName ''byteps'' (c_str '''') 0
   \<and> \<not> IsTensorInitialized example_engine ''byteps.noname.0'' (tensor_size example_input)
   \<and> list_ex is_InitTensor example_calls
   \<and> list_all (\<lambda>c. \<not> is_EnqueueTensor c) (takeWhile (\<lambda>c. \<not> is_InitTensor c) example_calls)"
proof -
  have h1: "initialized example_engine"
    by (simp add: example_engine_def)
  have h3: "''byteps.noname.0'' = GetOpName ''byteps'' (c_str '''') 0"
    by (simp add: GetOpName_def c_str_def to_string_0)
  have unknown:
    "\<not> IsTensorInitialized example_engine ''byteps.noname.0'' (tensor_size example_input)"
    by (simp add: example_engine_def)
  from registration_before_submission [OF h1 example_call h3] unknown
  have "list_ex is_InitTensor example_calls
        \<and> list_all (\<lambda>c. \<not> is_EnqueueTensor c)
            (takeWhile (\<lambda>c. \<not> is_InitTensor c) example_calls)"
    by blast
  with h1 h3 unknown example_call show ?thesis by simp
qed

text \<open>
  Claim C9. When \<open>DoPushPull\<close> registers a tensor, the pointer it passes to \<open>InitTensor\<close>
  is the raw data pointer of the input tensor when the tensor is on the host, and the null
  pointer when it is on an accelerator. The host device id is negative, so that no
  accelerator index equals it.
\<close>

theorem registration_host_pointer:
  assumes "DoPushPull eng tensor output average name version priority hm = (r, hm', calls)"
      and "Call_InitTensor ctx n dt p \<in> set calls"
      and "CPU_DEVICE_ID eng < 0"
  shows "(tensor_device tensor = CPU \<longrightarrow> p = tensor_data tensor)
       \<and> (tensor_device tensor \<noteq> CPU \<longrightarrow> p = nullptr)"
proof (cases "initialized eng")
  case False
  with assms show ?thesis by (auto simp: DoPushPull_uninitialized)
next
  case True
  from assms show ?thesis
    unfolding DoPushPull_initialized [OF True]
    by (auto simp: Let_def registration_calls_def GetDeviceID_def
          split: option.splits Status.splits if_splits Device.splits)
qed

theorem registration_host_pointer_witness:
  "DoPushPull example_engine example_input example_output 1 '''' 0 0
     (initial_handle_manager\<lparr>last_handle := 6\<rparr>) =
     (Inr 7, \<lparr>last_handle = 7, results = Map.empty(7 \<mapsto> None)\<rparr>, example_calls)
   \<and> Call_InitTensor (Context ''byteps.noname.0'') ''byteps.noname.0'' IntTensor 100
       \<in> set example_calls
   \<and> CPU_DEVICE_ID example_engine < 0
   \<and> tensor_device example_input = CPU
   \<and> 100 = tensor_data example_input"
proof -
  have h2: "Call_InitTensor (Context ''byteps.noname.0'') ''byteps.noname.0'' IntTensor 100
              \<in> set example_calls"
    by (simp add: example_calls_def)
  have h3: "CPU_DEVICE_ID example_engine < 0"
    by (simp add: example_engine_def)
  have host: "tensor_device example_input = CPU"
    by (simp add: example_input_def)
  from registration_host_pointer [OF example_call h2 h3] host
  have "100 = tensor_data example_input" by simp
  with example_call h2 h3 host show ?thesis by simp
qed

text \<open>
  Claim C2. With an empty label the tensor identity is the prefix joined with
  \<open>.noname.\<close> and the handle id allocated for the call; with a non-empty label it is
  the prefix joined with the label. The code does not do the first: a call with an empty
  label that is given handle 7 submits the identity \<open>byteps.noname.0\<close>, because
  \<open>GetOpName\<close> is called with the literal 0, where \<open>GetOpName\<close> with the handle would
  give \<open>byteps.noname.7\<close>.
\<close>

theorem noname_identity_ignores_handle:
  "(case DoPushPull example_engine example_input example_output 1 '''' 0 0
           (initial_handle_manager\<lparr>last_handle := 6\<rparr>) of
      (r, hm, calls) \<Rightarrow> (r, map sub_name (enqueued calls)))
     = (Inr 7, [''byteps.noname.0''])
   \<and> GetOpName ''byteps'' '''' 7 = ''byteps.noname.7''"
  by (simp add: example_call example_calls_def example_submission_def GetOpName_def
        to_string_7)

text \<open>
  Claim C3. When \<open>EnqueueTensor\<close> fails synchronously, \<open>DoPushPull\<close> raises that
  failure and leaves no allocated handle behind. The code raises the failure, but the
  handle it allocated before stays in the registry, pending: on a registry with no entry,
  a rejected submission ends with handle 1 pending, and no handle is returned to release
  it with.
\<close>

theorem rejected_submission_leaves_pending_handle:
  "(case DoPushPull rejecting_engine example_input example_output 1 ''grad1'' 0 0
           initial_handle_manager of
      (r, hm, calls) \<Rightarrow> (r, results hm 1, PollHandle hm 1, results initial_handle_manager 1))
     = (Inl (StatusError (EngineFailure ''rejected'')), Some None, Inr False, None)"
  by (simp add: DoPushPull_def CheckInitialized_def ThrowIfError_def AllocateHandle_def
        GetDeviceID_def RecordReadyEvent_def GetOpName_def c_str_def PollHandle_def
        init_if_needed_def GetContextFromName_def build_queue_list_cases example_defs Let_def)


section \<open>Completion\<close>

text \<open>
  Claim C1. With the average flag set, the completion callback divides the caller's output
  tensor in place, element by element, by the worker count, then resolves the handle with
  the status the engine reports. The code resolves the handle, but the tensor it divides
  is the input tensor, which the lambda captures: with the input in one buffer and the
  output in another, four workers, and the sum 8, 12 in the output buffer, the callback
  leaves the output at 8, 12 (the average is 2, 3) and divides the input buffer 2, 3
  down to 0, 0.
\<close>

theorem average_divides_input_not_output:
  "(case DoPushPull example_engine example_input example_output 1 ''grad1'' 0 0
           initial_handle_manager of
      (r, hm, calls) \<Rightarrow>
        (case run_callback int_div example_engine (sub_callback (hd (enqueued calls))) OK hm
                example_store of
           (r', hm', mem) \<Rightarrow>
             (r, r', results hm' 1, mem (tensor_data example_input),
              mem (tensor_data example_output))))
     = (Inr 1, Inr (), Some (Some OK), [0, 0], [8, 12])
   \<and> example_store (tensor_data example_output) = [8, 12]
   \<and> map (\<lambda>x. int_div x (byteps_size example_engine)) [8, 12] = [2, 3]"
  by (simp add: DoPushPull_def CheckInitialized_def ThrowIfError_def AllocateHandle_def
        GetDeviceID_def RecordReadyEvent_def GetOpName_def c_str_def MarkDone_def
        init_if_needed_def GetContextFromName_def build_queue_list_cases example_defs Let_def
        run_callback_def tensor_div_def int_div_def example_store_def)


section \<open>Waiting\<close>

lemma registry_after_0 [simp]: "registry_after 0 sched hm = hm"
  by (simp add: registry_after_def)

lemma registry_after_Nil [simp]: "registry_after k [] hm = hm"
  by (simp add: registry_after_def)

lemma registry_after_Suc_Cons [simp]:
  "registry_after (Suc k) (ops # rest) hm = registry_after k rest (run_ops ops hm)"
  by (simp add: registry_after_def)

lemma registry_after_Suc_drop:
  "registry_after (Suc k) sched hm =
     (case drop k sched of [] \<Rightarrow> registry_after k sched hm
      | ops # _ \<Rightarrow> run_ops ops (registry_after k sched hm))"
proof -
  have "take (Suc k) sched = take k sched @ take 1 (drop k sched)"
    using take_add [of k 1 sched] by simp
  then have "registry_after (Suc k) sched hm =
               fold run_ops (take 1 (drop k sched)) (registry_after k sched hm)"
    by (simp add: registry_after_def)
  then show ?thesis by (cases "drop k sched") simp_all
qed

subsection \<open>Invariants of the registry\<close>

lemma wf_initial: "wf_registry initial_handle_manager"
  by (simp add: wf_registry_def initial_handle_manager_def)

lemma wf_run_op: "wf_registry hm \<Longrightarrow> wf_registry (run_op op hm)"
  by (cases op)
     (auto simp: wf_registry_def AllocateHandle_def MarkDone_def ReleaseHandle_def Let_def
           split: option.splits)

lemma wf_run_ops: "wf_registry hm \<Longrightarrow> wf_registry (run_ops ops hm)"
  unfolding run_ops_def by (induction ops arbitrary: hm) (simp_all add: wf_run_op)

lemma wf_registry_after: "wf_registry hm \<Longrightarrow> wf_registry (registry_after k sched hm)"
proof (induction k arbitrary: sched hm)
  case 0
  then show ?case by simp
next
  case (Suc k)
  then show ?case by (cases sched) (simp_all add: wf_run_ops)
qed

lemma last_handle_run_op: "last_handle hm \<le> last_handle (run_op op hm)"
  by (cases op)
     (auto simp: AllocateHandle_def MarkDone_def ReleaseHandle_def Let_def
           split: option.splits)

text \<open>A resolved handle keeps its outcome until somebody releases it.\<close>

lemma resolved_run_op:
  assumes "wf_registry hm" and "results hm h = Some (Some st)" and "op \<noteq> Op_ReleaseHandle h"
  shows "results (run_op op hm) h = Some (Some st)"
proof (cases op)
  case Op_AllocateHandle
  from assms(1,2) have "h \<le> last_handle hm" by (simp add: wf_registry_def)
  with assms(2) Op_AllocateHandle show ?thesis by (simp add: AllocateHandle_def Let_def)
next
  case (Op_MarkDone h' st')
  with assms(2) show ?thesis by (auto simp: MarkDone_def split: option.splits)
next
  case (Op_PollHandle h')
  with assms(2) show ?thesis by simp
next
  case (Op_ReleaseHandle h')
  with assms(2,3) show ?thesis by (auto simp: ReleaseHandle_def split: option.splits)
qed

lemma resolved_run_ops:
  assumes "wf_registry hm" and "results hm h = Some (Some st)"
      and "Op_ReleaseHandle h \<notin> set ops"
  shows "results (run_ops ops hm) h = Some (Some st)"
  using assms unfolding run_ops_def
proof (induction ops arbitrary: hm)
  case Nil
  then show ?case by simp
next
  case (Cons op ops)
  from Cons.prems(3) have "op \<noteq> Op_ReleaseHandle h" by auto
  with Cons.prems have "results (run_op op hm) h = Some (Some st)"
    by (simp add: resolved_run_op)
  moreover from Cons.prems(1) have "wf_registry (run_op op hm)" by (rule wf_run_op)
  ultimately show ?case using Cons.IH Cons.prems(3) by simp
qed

text \<open>A settled handle is never pending again: no id is allocated twice.\<close>

lemma settled_run_op:
  assumes "settled hm h"
  shows "settled (run_op op hm) h"
proof -
  from assms have "wf_registry (run_op op hm)" by (simp add: settled_def wf_run_op)
  moreover from assms have "h \<le> last_handle (run_op op hm)"
    using last_handle_run_op [of hm op] by (simp add: settled_def)
  moreover from assms have "results (run_op op hm) h \<noteq> Some None"
    by (cases op)
       (auto simp: settled_def AllocateHandle_def MarkDone_def ReleaseHandle_def Let_def
             split: option.splits if_splits)
  ultimately show ?thesis by (simp add: settled_def)
qed

lemma settled_run_ops: "settled hm h \<Longrightarrow> settled (run_ops ops hm) h"
  unfolding run_ops_def by (induction ops arbitrary: hm) (simp_all add: settled_run_op)

lemma poll_true_settled:
  "wf_registry hm \<Longrightarrow> PollHandle hm h = Inr True \<Longrightarrow> settled hm h"
  by (auto simp: settled_def wf_registry_def PollHandle_def split: option.splits)

lemma settled_release:
  "settled hm h \<Longrightarrow> ReleaseHandle hm h \<noteq> Inl (MisuseError ReleasePending)"
  by (auto simp: settled_def ReleaseHandle_def split: option.splits)

lemma PollHandle_raises: "PollHandle hm h = Inl e \<Longrightarrow> e = MisuseError UnknownHandle"
  by (auto simp: PollHandle_def split: option.splits)

subsection \<open>The polling loop\<close>

text \<open>
  When the first \<open>k\<close> polls find the handle pending and the next one finds it resolved,
  the loop polls and sleeps \<open>k\<close> times and leaves at poll \<open>k\<close>.
\<close>

lemma poll_loop_exits:
  assumes "\<forall>j<k. PollHandle (registry_after j sched hm) h = Inr False"
      and "PollHandle (registry_after k sched hm) h = Inr True"
  shows "poll_loop h sched hm =
           (concat (replicate k [Ev_PollHandle h (Inr False), Ev_sleep_for 1])
              @ [Ev_PollHandle h (Inr True)],
            Exited, registry_after k sched hm, drop k sched)"
  using assms
proof (induction k arbitrary: sched hm)
  case 0
  then show ?case by (simp add: poll_loop.simps)
next
  case (Suc k)
  from Suc.prems(1) have pending: "PollHandle hm h = Inr False"
    by (metis registry_after_0 zero_less_Suc)
  show ?case
  proof (cases sched)
    case Nil
    with Suc.prems(2) pending show ?thesis by simp
  next
    case (Cons ops rest)
    have "\<forall>j<k. PollHandle (registry_after j rest (run_ops ops hm)) h = Inr False"
      using Suc.prems(1) Cons by (metis Suc_less_eq registry_after_Suc_Cons)
    moreover have "PollHandle (registry_after k rest (run_ops ops hm)) h = Inr True"
      using Suc.prems(2) Cons by simp
    ultimately have "poll_loop h rest (run_ops ops hm) =
           (concat (replicate k [Ev_PollHandle h (Inr False), Ev_sleep_for 1])
              @ [Ev_PollHandle h (Inr True)],
            Exited, registry_after k rest (run_ops ops hm), drop k rest)"
      by (rule Suc.IH)
    with pending Cons show ?thesis
      by (simp add: poll_loop.simps [of h "ops # rest"])
  qed
qed

text \<open>
  The loop itself never releases; it leaves only on a poll that returned true; and the
  only exception it raises is the one of a poll on an unknown handle.
\<close>

lemma poll_loop_invariant:
  assumes "poll_loop h sched hm = (evs, r, hm1, sched1)" and "wf_registry hm"
  shows "(\<forall>e \<in> set evs. \<not> is_ReleaseHandle e)
       \<and> wf_registry hm1
       \<and> (r = Exited \<longrightarrow> evs \<noteq> [] \<and> last evs = Ev_PollHandle h (Inr True)
                           \<and> PollHandle hm1 h = Inr True)
       \<and> (\<forall>e. r = Threw e \<longrightarrow> e = MisuseError UnknownHandle)"
  using assms
proof (induction sched arbitrary: hm evs r hm1 sched1)
  case Nil
  then show ?case
    by (auto simp: poll_loop.simps [of h "[]"] dest: PollHandle_raises
          split: sum.splits bool.splits)
next
  case (Cons ops rest)
  show ?case
  proof (cases "PollHandle hm h")
    case (Inl e)
    with Cons.prems show ?thesis
      by (auto simp: poll_loop.simps [of h "ops # rest"] dest: PollHandle_raises)
  next
    case (Inr b)
    show ?thesis
    proof (cases b)
      case True
      with Inr Cons.prems show ?thesis
        by (auto simp: poll_loop.simps [of h "ops # rest"])
    next
      case False
      obtain evs' r' hm' sched' where
        rec: "poll_loop h rest (run_ops ops hm) = (evs', r', hm', sched')"
        by (cases "poll_loop h rest (run_ops ops hm)") auto
      have "wf_registry (run_ops ops hm)"
        using Cons.prems(2) by (rule wf_run_ops)
      from Cons.IH [OF rec this]
      have ih: "(\<forall>e \<in> set evs'. \<not> is_ReleaseHandle e)
       \<and> wf_registry hm'
       \<and> (r' = Exited \<longrightarrow> evs' \<noteq> [] \<and> last evs' = Ev_PollHandle h (Inr True)
                           \<and> PollHandle hm' h = Inr True)
       \<and> (\<forall>e. r' = Threw e \<longrightarrow> e = MisuseError UnknownHandle)" .
      from Cons.prems(1) Inr False rec
      have "evs = Ev_PollHandle h (Inr False) # Ev_sleep_for 1 # evs'" "r = r'" "hm1 = hm'"
        by (simp_all add: poll_loop.simps [of h "ops # rest"])
      with ih show ?thesis by auto
    qed
  qed
qed

text \<open>While the handle stays pending, \<open>WaitAndClear\<close> does not return.\<close>

lemma poll_loop_forever:
  assumes "\<forall>j \<le> length sched. PollHandle (registry_after j sched hm) h = Inr False"
  shows "fst (snd (poll_loop h sched hm)) = Forever"
  using assms
proof (induction sched arbitrary: hm)
  case Nil
  then show ?case by (simp add: poll_loop.simps [of h "[]"])
next
  case (Cons ops rest)
  from Cons.prems have pending: "PollHandle hm h = Inr False"
    by (metis registry_after_0 le0)
  have "\<forall>j \<le> length rest. PollHandle (registry_after j rest (run_ops ops hm)) h = Inr False"
    using Cons.prems by (metis Suc_le_mono length_Cons registry_after_Suc_Cons)
  then have "fst (snd (poll_loop h rest (run_ops ops hm))) = Forever"
    by (rule Cons.IH)
  with pending show ?case
    by (auto simp: poll_loop.simps [of h "ops # rest"] split: prod.splits)
qed

lemma WaitAndClear_spins:
  assumes "\<forall>j \<le> length sched. PollHandle (registry_after j sched hm) h = Inr False"
  shows "fst (snd (WaitAndClear h sched hm)) = Spins"
  using poll_loop_forever [OF assms]
  by (auto simp: WaitAndClear_def split: prod.splits loop_result.splits)

subsection \<open>The example run\<close>

lemma example_registry_after:
  "PollHandle (registry_after 0 example_schedule example_registry) 1 = Inr False"
  "PollHandle (registry_after 1 example_schedule example_registry) 1 = Inr False"
  "results (registry_after 2 example_schedule example_registry) 1 =
     Some (Some (Failure (EngineFailure ''network'')))"
  by (simp_all add: registry_after_def example_schedule_def example_registry_def run_ops_def
        initial_handle_manager_def AllocateHandle_def MarkDone_def PollHandle_def Let_def
        numeral_2_eq_2)

lemma example_wait:
  "fst (WaitAndClear 1 example_schedule example_registry) =
     [Ev_PollHandle 1 (Inr False), Ev_sleep_for 1, Ev_PollHandle 1 (Inr False), Ev_sleep_for 1,
      Ev_PollHandle 1 (Inr True),
      Ev_ReleaseHandle 1 (Inr (Failure (EngineFailure ''network'')))]"
  by (simp add: WaitAndClear_def poll_loop.simps example_schedule_def example_registry_def
        run_ops_def initial_handle_manager_def AllocateHandle_def MarkDone_def PollHandle_def
        ReleaseHandle_def ThrowIfError_def Let_def)

subsection \<open>WaitAndClear\<close>

text \<open>
  Claim C6. \<open>WaitAndClear\<close> polls, sleeping one millisecond after each poll that finds the
  handle pending, until a poll reports the handle resolved; then it releases the handle,
  once, and raises the stored outcome if and only if that outcome is a failure. The
  registry is one the program can reach, and the handle belongs to the waiting caller: no
  other thread releases it.
\<close>

theorem WaitAndClear_waits_then_releases:
  assumes reachable: "hm = run_ops pre initial_handle_manager"
      and pending: "\<forall>j<k. PollHandle (registry_after j sched hm) h = Inr False"
      and resolved: "results (registry_after k sched hm) h = Some (Some st)"
      and owned: "\<forall>ops \<in> set sched. Op_ReleaseHandle h \<notin> set ops"
  shows "WaitAndClear h sched hm =
           (concat (replicate k [Ev_PollHandle h (Inr False), Ev_sleep_for 1])
              @ [Ev_PollHandle h (Inr True), Ev_ReleaseHandle h (Inr st)],
            (case st of OK \<Rightarrow> Returned | Failure d \<Rightarrow> Raised (StatusError d)),
            (registry_after (Suc k) sched hm)
              \<lparr>results := (results (registry_after (Suc k) sched hm))(h := None)\<rparr>)"
proof -
  let ?hm1 = "registry_after k sched hm"
  let ?hm2 = "registry_after (Suc k) sched hm"
  have wf: "wf_registry hm"
    unfolding reachable by (rule wf_run_ops [OF wf_initial])
  then have wf1: "wf_registry ?hm1" by (rule wf_registry_after)
  from resolved have "PollHandle ?hm1 h = Inr True" by (simp add: PollHandle_def)
  with pending have loop: "poll_loop h sched hm =
           (concat (replicate k [Ev_PollHandle h (Inr False), Ev_sleep_for 1])
              @ [Ev_PollHandle h (Inr True)],
            Exited, ?hm1, drop k sched)"
    by (rule poll_loop_exits)
  have hm2: "(case drop k sched of [] \<Rightarrow> ?hm1 | ops # _ \<Rightarrow> run_ops ops ?hm1) = ?hm2"
    by (simp add: registry_after_Suc_drop)
  have "results ?hm2 h = Some (Some st)"
  proof (cases "drop k sched")
    case Nil
    with resolved show ?thesis by (simp add: registry_after_Suc_drop)
  next
    case (Cons ops rest)
    then have "ops \<in> set sched" by (metis in_set_dropD list.set_intros(1))
    with owned have "Op_ReleaseHandle h \<notin> set ops" by simp
    with wf1 resolved have "results (run_ops ops ?hm1) h = Some (Some st)"
      by (rule resolved_run_ops)
    with Cons show ?thesis by (simp add: registry_after_Suc_drop)
  qed
  then have "ReleaseHandle ?hm2 h = Inr (st, ?hm2\<lparr>results := (results ?hm2)(h := None)\<rparr>)"
    by (simp add: ReleaseHandle_def)
  with loop hm2 show ?thesis
    by (simp add: WaitAndClear_def ThrowIfError_def Let_def split: Status.splits)
qed

theorem WaitAndClear_waits_then_releases_witness:
  "example_registry = run_ops [Op_AllocateHandle] initial_handle_manager
   \<and> PollHandle (registry_after 0 example_schedule example_registry) 1 = Inr False
   \<and> PollHandle (registry_after 1 example_schedule example_registry) 1 = Inr False
   \<and> results (registry_after 2 example_schedule example_registry) 1 =
       Some (Some (Failure (EngineFailure ''network'')))
   \<and> Op_ReleaseHandle 1 \<notin> set (concat example_schedule)
   \<and> fst (WaitAndClear 1 example_schedule example_registry) =
       [Ev_PollHandle 1 (Inr False), Ev_sleep_for 1, Ev_PollHandle 1 (Inr False),
        Ev_sleep_for 1, Ev_PollHandle 1 (Inr True),
        Ev_ReleaseHandle 1 (Inr (Failure (EngineFailure ''network'')))]
   \<and> fst (snd (WaitAndClear 1 example_schedule example_registry)) =
       Raised (StatusError (EngineFailure ''network''))
   \<and> results (snd (snd (WaitAndClear 1 example_schedule example_registry))) 1 = None"
proof -
  have h1: "example_registry = run_ops [Op_AllocateHandle] initial_handle_manager"
    by (simp add: example_registry_def)
  have h2: "\<forall>j<2. PollHandle (registry_after j example_schedule example_registry) 1 = Inr False"
  proof (intro allI impI)
    fix j :: nat
    assume "j < 2"
    then have "j = 0 \<or> j = 1" by auto
    then show "PollHandle (registry_after j example_schedule example_registry) 1 = Inr False"
      using example_registry_after(1,2) by auto
  qed
  have h4: "\<forall>ops \<in> set example_schedule. Op_ReleaseHandle 1 \<notin> set ops"
    by (simp add: example_schedule_def)
  have others: "Op_ReleaseHandle 1 \<notin> set (concat example_schedule)"
    by (simp add: example_schedule_def)
  from WaitAndClear_waits_then_releases [OF h1 h2 example_registry_after(3) h4]
  have "fst (WaitAndClear 1 example_schedule example_registry) =
       [Ev_PollHandle 1 (Inr False), Ev_sleep_for 1, Ev_PollHandle 1 (Inr False),
        Ev_sleep_for 1, Ev_PollHandle 1 (Inr True),
        Ev_ReleaseHandle 1 (Inr (Failure (EngineFailure ''network'')))]
   \<and> fst (snd (WaitAndClear 1 example_schedule example_registry)) =
       Raised (StatusError (EngineFailure ''network''))
   \<and> results (snd (snd (WaitAndClear 1 example_schedule example_registry))) 1 = None"
    by (simp add: numeral_2_eq_2)
  with h1 example_registry_after others show ?thesis by simp
qed

text \<open>
  Claim C10. \<open>WaitAndClear\<close> never calls \<open>ReleaseHandle\<close> before \<open>PollHandle\<close> has
  returned true for the handle: in every run, complete or still polling, a release is
  directly preceded by a poll of the same handle that returned true. Neither the release
  nor \<open>WaitAndClear\<close> as a whole ever raises the release-on-pending error, whatever the
  other threads do, from any registry the program can reach.
\<close>

theorem WaitAndClear_releases_only_after_true_poll:
  assumes reachable: "hm = run_ops pre initial_handle_manager"
      and run: "WaitAndClear h sched hm = (evs, res, hm')"
  shows "res \<noteq> Raised (MisuseError ReleasePending)
       \<and> (\<forall>i < length evs. is_ReleaseHandle (evs ! i) \<longrightarrow>
            0 < i \<and> evs ! (i - 1) = Ev_PollHandle h (Inr True)
            \<and> (\<exists>r. evs ! i = Ev_ReleaseHandle h r \<and> r \<noteq> Inl (MisuseError ReleasePending)))"
proof -
  obtain evs1 r1 hm1 sched1 where loop: "poll_loop h sched hm = (evs1, r1, hm1, sched1)"
    by (cases "poll_loop h sched hm") auto
  have wf: "wf_registry hm"
    unfolding reachable by (rule wf_run_ops [OF wf_initial])
  from poll_loop_invariant [OF loop wf]
  have no_release: "\<forall>e \<in> set evs1. \<not> is_ReleaseHandle e"
    and wf1: "wf_registry hm1"
    and exited: "r1 = Exited \<Longrightarrow> evs1 \<noteq> [] \<and> last evs1 = Ev_PollHandle h (Inr True)
                           \<and> PollHandle hm1 h = Inr True"
    and threw: "\<And>e. r1 = Threw e \<Longrightarrow> e = MisuseError UnknownHandle"
    by auto
  show ?thesis
  proof (cases r1)
    case (Threw e)
    with loop run threw no_release show ?thesis
      by (auto simp: WaitAndClear_def)
  next
    case Forever
    with loop run no_release show ?thesis
      by (auto simp: WaitAndClear_def)
  next
    case Exited
    define hm2 where "hm2 = (case sched1 of [] \<Rightarrow> hm1 | ops # _ \<Rightarrow> run_ops ops hm1)"
    from exited [OF Exited] wf1 have "settled hm1 h" by (simp add: poll_true_settled)
    then have "settled hm2 h"
      unfolding hm2_def by (cases sched1) (simp_all add: settled_run_ops)
    then have not_pending: "ReleaseHandle hm2 h \<noteq> Inl (MisuseError ReleasePending)"
      by (rule settled_release)
    obtain r where evs: "evs = evs1 @ [Ev_ReleaseHandle h r]"
      and r: "r \<noteq> Inl (MisuseError ReleasePending)"
      and res: "res \<noteq> Raised (MisuseError ReleasePending)"
      using loop run Exited not_pending
      by (auto simp: WaitAndClear_def hm2_def [symmetric] Let_def ThrowIfError_def
            split: sum.splits prod.splits Status.splits)
    have "0 < i \<and> evs ! (i - 1) = Ev_PollHandle h (Inr True)
            \<and> (\<exists>r. evs ! i = Ev_ReleaseHandle h r \<and> r \<noteq> Inl (MisuseError ReleasePending))"
      if "i < length evs" and "is_ReleaseHandle (evs ! i)" for i
    proof -
      have "i = length evs1"
      proof (rule ccontr)
        assume "i \<noteq> length evs1"
        with that(1) evs have "i < length evs1" by simp
        with that(2) evs no_release show False by (simp add: nth_append)
      qed
      moreover from exited [OF Exited]
      have "evs1 \<noteq> []" "last evs1 = Ev_PollHandle h (Inr True)"
        by simp_all
      ultimately show ?thesis
        using evs r by (simp add: nth_append last_conv_nth)
    qed
    with res show ?thesis by blast
  qed
qed

theorem WaitAndClear_releases_only_after_true_poll_witness:
  "example_registry = run_ops [Op_AllocateHandle] initial_handle_manager
   \<and> (5::nat) < length (fst (WaitAndClear 1 example_schedule example_registry))
   \<and> is_ReleaseHandle (fst (WaitAndClear 1 example_schedule example_registry) ! 5)
   \<and> fst (WaitAndClear 1 example_schedule example_registry) ! 4 = Ev_PollHandle 1 (Inr True)
   \<and> fst (snd (WaitAndClear 1 example_schedule example_registry)) \<noteq>
       Raised (MisuseError ReleasePending)"
proof -
  let ?run = "WaitAndClear 1 example_schedule example_registry"
  have h1: "example_registry = run_ops [Op_AllocateHandle] initial_handle_manager"
    by (simp add: example_registry_def)
  have h2: "?run = (fst ?run, fst (snd ?run), snd (snd ?run))"
    by simp
  have len: "(5::nat) < length (fst ?run)"
    by (simp add: example_wait)
  have rel: "is_ReleaseHandle (fst ?run ! 5)"
    by (simp add: example_wait)
  from WaitAndClear_releases_only_after_true_poll [OF h1 h2] len rel
  have "fst ?run ! (5 - 1) = Ev_PollHandle 1 (Inr True)
        \<and> fst (snd ?run) \<noteq> Raised (MisuseError ReleasePending)"
    by blast
  with h1 len rel show ?thesis by simp
qed

end
